theory Spec2Isabelle
  imports Main "HOL-Library.Word"
begin

section \<open>Gossip service (pkg/protocol/gossip/service.go)\<close>

text \<open>
  The service owns a map from peer identities to protocol sessions and is driven by one
  event loop. Everything the loop does beyond changing that map (firing an event on the
  bus, closing a connection, resetting a stream, replying to a query) is recorded, in
  order, in a trace kept beside the map.
\<close>

type_synonym peerID = string

text \<open>
  Modelled from the spec: the declarations of \<^verbatim>\<open>p2p.Peer\<close> and
  \<^verbatim>\<open>p2p.PeerRelation\<close> are outside the sources at hand. The relation is one
  of Unknown, Known, Autopeered; the service only ever compares it with Unknown.
\<close>

datatype PeerRelation = PeerRelationUnknown | PeerRelationKnown | PeerRelationAutopeered

record Peer =
  ID :: peerID
  Relation :: PeerRelation

datatype Direction = DirUnknown | DirInbound | DirOutbound

record Conn =
  connID :: nat
  RemotePeer :: peerID
  StatDirection :: Direction

record NetStream =
  streamID :: nat
  StreamConn :: Conn

text \<open>A \<^verbatim>\<open>*Protocol\<close> is a \<open>Protocol option\<close>: \<open>None\<close> is the nil pointer.\<close>

record Protocol =
  PeerID :: peerID
  Stream :: NetStream
  SendQueueSize :: nat

datatype gossipError =
    UnableToCreateStream peerID string
  | UnableToResetStream peerID string

datatype serviceEvent =
    ProtocolStarted "Protocol option"
  | ProtocolTerminated "Protocol option"
  | InboundStreamCancelled NetStream string
  | ErrorEvent gossipError

datatype effect =
    Emit serviceEvent
  | ConnClose Conn
  | StreamReset NetStream
  | StreamRead NetStream
  | ReplyProtocol "Protocol option"
  | ReplyForEach

definition StreamCancelReasonDuplicated :: string where
  "StreamCancelReasonDuplicated = ''duplicated stream''"

definition StreamCancelReasonInsufficientPeerRelation :: string where
  "StreamCancelReasonInsufficientPeerRelation = ''insufficient peer relation''"

text \<open>
  The collaborators of the service: the peer manager's records, the transport's answer to
  \<^verbatim>\<open>NewStream\<close> and to \<^verbatim>\<open>Reset\<close> (an error text, or success), the
  configured send queue size, and the number of handlers attached to
  \<^verbatim>\<open>Events.InboundStreamCancelled\<close>. Handlers are attached at setup:
  \<^verbatim>\<open>NewService\<close> attaches one itself, through
  \<^verbatim>\<open>registerLoggerOnEvents\<close>, when a logger is configured.
\<close>

record gossipEnv =
  managerPeers :: "peerID \<rightharpoonup> Peer"
  hostNewStream :: "peerID \<Rightarrow> string + NetStream"
  streamResetErr :: "NetStream \<Rightarrow> string option"
  optsSendQueueSize :: nat
  inboundStreamCancelledHandlers :: nat

record Service =
  streams :: "peerID \<rightharpoonup> Protocol"
  trace :: "effect list"

text \<open>
  \<open>Emit e\<close> in the trace says that \<^verbatim>\<open>Trigger\<close> ran to its end for \<open>e\<close>:
  every handler attached to the event was called with it. The callers of
  \<^verbatim>\<open>ProtocolStarted\<close>, \<^verbatim>\<open>ProtocolTerminated\<close> and \<^verbatim>\<open>Error\<close>
  assert the types their parameters are passed with, so firing these always comes to its
  end.
\<close>

definition trigger :: "serviceEvent \<Rightarrow> Service \<Rightarrow> Service" where
  "trigger e s = s\<lparr>trace := trace s @ [Emit e]\<rparr>"

text \<open>
  A parameter handed to \<^verbatim>\<open>Trigger(params ...interface{})\<close> keeps its dynamic
  type. The two cancel reasons are declared in a constant block without a type, so they are
  untyped string constants, and as an \<^verbatim>\<open>interface{}\<close> they hold a
  \<^verbatim>\<open>string\<close>, not a \<^verbatim>\<open>StreamCancelReason\<close>.
\<close>

datatype reasonParam = AsString string | AsStreamCancelReason string

definition reasonText :: "reasonParam \<Rightarrow> string" where
  "reasonText r = (case r of AsString t \<Rightarrow> t | AsStreamCancelReason t \<Rightarrow> t)"

datatype goPanic = InterfaceConversion string

text \<open>
  \<^verbatim>\<open>StreamCancelCaller\<close>: the type assertion
  \<^verbatim>\<open>params[1].(StreamCancelReason)\<close> panics on a value whose dynamic type is
  \<^verbatim>\<open>string\<close>; it is evaluated before the handler is called.
\<close>

definition StreamCancelCaller :: "NetStream \<Rightarrow> reasonParam \<Rightarrow> goPanic + NetStream \<times> string" where
  "StreamCancelCaller stream reason =
     (case reason of
        AsStreamCancelReason r \<Rightarrow> Inr (stream, r)
      | AsString r \<Rightarrow>
          Inl (InterfaceConversion ''interface {} is string, not gossip.StreamCancelReason''))"

text \<open>
  Modelled from the spec: \<^verbatim>\<open>Event.Trigger\<close> is outside the sources at hand.
  Firing invokes the attached handlers in registration order on the firing thread, each
  through the caller of the event; with no handler attached nothing is called. A panic of
  the caller leaves \<^verbatim>\<open>Trigger\<close> before any handler has seen the event.
\<close>

definition triggerInboundStreamCancelled ::
  "gossipEnv \<Rightarrow> NetStream \<Rightarrow> reasonParam \<Rightarrow> Service \<Rightarrow> goPanic + Service" where
  "triggerInboundStreamCancelled env stream reason s =
     (if inboundStreamCancelledHandlers env = 0
      then Inr (trigger (InboundStreamCancelled stream (reasonText reason)) s)
      else
        case StreamCancelCaller stream reason of
          Inl p \<Rightarrow> Inl p
        | Inr (st, r) \<Rightarrow> Inr (trigger (InboundStreamCancelled st r) s))"

text \<open>
  Modelled from the spec: \<^verbatim>\<open>Manager.Call(peerID, fn)\<close> synchronously hands the peer
  record to \<^verbatim>\<open>fn\<close> if the peer is known, and does nothing otherwise. The closure
  updates the variables it captured, here passed and returned as \<open>acc\<close>.
\<close>

definition managerCall :: "gossipEnv \<Rightarrow> peerID \<Rightarrow> (Peer \<Rightarrow> 'a \<Rightarrow> 'a) \<Rightarrow> 'a \<Rightarrow> 'a" where
  "managerCall env peerID f acc =
     (case managerPeers env peerID of None \<Rightarrow> acc | Some peer \<Rightarrow> f peer acc)"

definition closeUnwantedStream :: "NetStream \<Rightarrow> Service \<Rightarrow> Service" where
  "closeUnwantedStream stream s =
     s\<lparr>trace := trace s @ [ConnClose (StreamConn stream), StreamReset stream]\<rparr>"

definition NewProtocol :: "peerID \<Rightarrow> NetStream \<Rightarrow> nat \<Rightarrow> Protocol" where
  "NewProtocol peerID stream sendQueueSize =
     \<lparr>PeerID = peerID, Stream = stream, SendQueueSize = sendQueueSize\<rparr>"

definition registerProtocol ::
  "gossipEnv \<Rightarrow> peerID \<Rightarrow> NetStream \<Rightarrow> Service \<Rightarrow> Protocol option \<times> Service" where
  "registerProtocol env peerID stream s =
     (let proto = NewProtocol peerID stream (optsSendQueueSize env)
      in (Some proto, s\<lparr>streams := (streams s)(peerID \<mapsto> proto)\<rparr>))"

text \<open>
  \<^verbatim>\<open>handleInboundStream\<close> returns the new session or nil, or it panics in
  \<^verbatim>\<open>Trigger\<close>; the panic comes before \<^verbatim>\<open>closeUnwantedStream\<close>, so
  the state is then the one the function was called in.
\<close>

definition handleInboundStream ::
  "gossipEnv \<Rightarrow> NetStream \<Rightarrow> Service \<Rightarrow> (goPanic + Protocol option) \<times> Service" where
  "handleInboundStream env stream s =
     (let remotePeerID = RemotePeer (StreamConn stream) in
      if streams s remotePeerID \<noteq> None then
        (case triggerInboundStreamCancelled env stream
                (AsString StreamCancelReasonDuplicated) s of
           Inl p \<Rightarrow> (Inl p, s)
         | Inr s' \<Rightarrow> (Inr None, closeUnwantedStream stream s'))
      else
        let ok = managerCall env remotePeerID
                   (\<lambda>peer ok. if Relation peer = PeerRelationUnknown then ok else True) False
        in if \<not> ok then
             (case triggerInboundStreamCancelled env stream
                     (AsString StreamCancelReasonInsufficientPeerRelation) s of
                Inl p \<Rightarrow> (Inl p, s)
              | Inr s' \<Rightarrow> (Inr None, closeUnwantedStream stream s'))
           else
             (case registerProtocol env remotePeerID stream s of
                (proto, s') \<Rightarrow> (Inr proto, s')))"

definition openStream ::
  "gossipEnv \<Rightarrow> peerID \<Rightarrow> Service \<Rightarrow> (gossipError + NetStream) \<times> Service" where
  "openStream env peerID s =
     (case hostNewStream env peerID of
        Inl err \<Rightarrow> (Inl (UnableToCreateStream peerID err), s)
      | Inr stream \<Rightarrow> (Inr stream, s\<lparr>trace := trace s @ [StreamRead stream]\<rparr>))"

definition handleConnected ::
  "gossipEnv \<Rightarrow> Peer \<Rightarrow> Conn \<Rightarrow> Service \<Rightarrow> (gossipError + Protocol option) \<times> Service" where
  "handleConnected env peer conn s =
     (if streams s (ID peer) \<noteq> None then (Inr None, s)
      else if StatDirection conn \<noteq> DirOutbound then (Inr None, s)
      else
        case openStream env (ID peer) s of
          (Inl err, s') \<Rightarrow> (Inl err, s')
        | (Inr stream, s') \<Rightarrow>
            (case registerProtocol env (ID peer) stream s' of (proto, s'') \<Rightarrow> (Inr proto, s'')))"

text \<open>
  \<^verbatim>\<open>deregisterProtocol\<close> returns a pair: whether a session was removed, and the
  error of the reset. It returns \<open>True\<close> together with the error when the reset fails.
\<close>

definition deregisterProtocol ::
  "gossipEnv \<Rightarrow> peerID \<Rightarrow> Service \<Rightarrow> (bool \<times> gossipError option) \<times> Service" where
  "deregisterProtocol env peerID s =
     (case streams s peerID of
        None \<Rightarrow> ((False, None), s)
      | Some proto \<Rightarrow>
          let s' = s\<lparr>streams := (streams s)(peerID := None),
                     trace := trace s @ [StreamReset (Stream proto)]\<rparr>
          in case streamResetErr env (Stream proto) of
               Some err \<Rightarrow> ((True, Some (UnableToResetStream peerID err)), s')
             | None \<Rightarrow> ((True, None), s'))"

definition closeStream :: "gossipEnv \<Rightarrow> peerID \<Rightarrow> Service \<Rightarrow> Service" where
  "closeStream env peerID s =
     (let proto = streams s peerID in
      case deregisterProtocol env peerID s of
        ((reset, Some err), s') \<Rightarrow> trigger (ErrorEvent err) s'
      | ((reset, None), s') \<Rightarrow>
          if reset then trigger (ProtocolTerminated proto) s' else s')"

definition handleRelationUpdated ::
  "gossipEnv \<Rightarrow> Peer \<Rightarrow> PeerRelation \<Rightarrow> Service \<Rightarrow> (gossipError + Protocol option) \<times> Service" where
  "handleRelationUpdated env peer oldRel s =
     (let newRel = Relation peer in
      if newRel = PeerRelationUnknown then
        (case deregisterProtocol env (ID peer) s of
           ((reset, Some err), s') \<Rightarrow> (Inl err, s')
         | ((reset, None), s') \<Rightarrow> (Inr None, s'))
      else if streams s (ID peer) \<noteq> None then (Inr None, s)
      else
        case openStream env (ID peer) s of
          (Inl err, s') \<Rightarrow> (Inl err, s')
        | (Inr stream, s') \<Rightarrow>
            (case registerProtocol env (ID peer) stream s' of (proto, s'') \<Rightarrow> (Inr proto, s'')))"

text \<open>
  One message of the event loop's channels. The function of a \<^verbatim>\<open>forEach\<close> request
  must not call the service, so the request only produces its reply.
\<close>

datatype loopMsg =
    ShutdownSignal
  | InboundStreamMsg NetStream
  | ConnectedMsg Peer Conn
  | DisconnectedMsg Peer
  | StreamClosedMsg peerID NetStream
  | RelationUpdatedMsg Peer PeerRelation
  | StreamReqMsg peerID
  | ForEachMsg

definition startedOrError :: "(gossipError + Protocol option) \<times> Service \<Rightarrow> Service" where
  "startedOrError r =
     (case r of
        (Inl err, s') \<Rightarrow> trigger (ErrorEvent err) s'
      | (Inr None, s') \<Rightarrow> s'
      | (Inr (Some proto), s') \<Rightarrow> trigger (ProtocolStarted (Some proto)) s')"

text \<open>
  One case of the \<^verbatim>\<open>select\<close> statement. The first component is the panic the
  case ended with, if any; nothing in the loop recovers from it.
\<close>

fun eventLoopCase :: "gossipEnv \<Rightarrow> loopMsg \<Rightarrow> Service \<Rightarrow> goPanic option \<times> Service" where
  "eventLoopCase env ShutdownSignal s = (None, s)"
| "eventLoopCase env (InboundStreamMsg inboundStream) s =
     (case handleInboundStream env inboundStream s of
        (Inl p, s') \<Rightarrow> (Some p, s')
      | (Inr None, s') \<Rightarrow> (None, s')
      | (Inr (Some proto), s') \<Rightarrow> (None, trigger (ProtocolStarted (Some proto)) s'))"
| "eventLoopCase env (ConnectedMsg peer conn) s =
     (None, startedOrError (handleConnected env peer conn s))"
| "eventLoopCase env (DisconnectedMsg peer) s = (None, closeStream env (ID peer) s)"
| "eventLoopCase env (StreamClosedMsg peerID stream) s = (None, closeStream env peerID s)"
| "eventLoopCase env (RelationUpdatedMsg peer oldRelation) s =
     (None, startedOrError (handleRelationUpdated env peer oldRelation s))"
| "eventLoopCase env (StreamReqMsg peerID) s =
     (None, s\<lparr>trace := trace s @ [ReplyProtocol (streams s peerID)]\<rparr>)"
| "eventLoopCase env ForEachMsg s = (None, s\<lparr>trace := trace s @ [ReplyForEach]\<rparr>)"

text \<open>
  The loop over a finite sequence of arrivals: it returns at the shutdown signal, it ends
  with the first panic, and the state reached is returned when the arrivals end.
\<close>

fun eventLoop :: "gossipEnv \<Rightarrow> loopMsg list \<Rightarrow> Service \<Rightarrow> goPanic option \<times> Service" where
  "eventLoop env [] s = (None, s)"
| "eventLoop env (ShutdownSignal # msgs) s = (None, s)"
| "eventLoop env (msg # msgs) s =
     (case eventLoopCase env msg s of
        (Some p, s') \<Rightarrow> (Some p, s')
      | (None, s') \<Rightarrow> eventLoop env msgs s')"

text \<open>How often \<^verbatim>\<open>ProtocolTerminated\<close> was fired for a session in a trace.\<close>

definition terminatedCount :: "Protocol \<Rightarrow> effect list \<Rightarrow> nat" where
  "terminatedCount proto tr = length (filter (\<lambda>e. e = Emit (ProtocolTerminated (Some proto))) tr)"

section \<open>Pruning engine (plugins/snapshot/pruning.go)\<close>

text \<open>
  Modelled from the spec: the declaration of \<^verbatim>\<open>milestone.Index\<close> is outside the
  sources at hand; it is a non-negative machine integer, taken here as an unsigned 32-bit
  word, so that \<open>+\<close>, \<open>-\<close> and the loop counter wrap around as Go's do.
\<close>

type_synonym Index = "32 word"
type_synonym Hash = string

record SnapshotInfo =
  SnapshotIndex :: Index
  EntryPointIndex :: Index
  PruningIndex :: Index

text \<open>
  A stored message with the part of its metadata the engine reads. The store is keyed by
  message ID, so \<^verbatim>\<open>GetMessageID()\<close> of the message loaded for an ID is that ID.
\<close>

record Message =
  Parent1MessageID :: Hash
  Parent2MessageID :: Hash
  IsConfirmed :: bool

record Bundle =
  MessageIsMilestone :: bool

record Milestone =
  MessageID :: Hash

datatype pruneError =
    ErrNotEnoughHistory
  | ErrNoPruningNeeded
  | ErrPruningAborted
  | PanicNoSnapshotInfo
  | ErrCollaborator string

text \<open>The calls that change the store or are visible outside, in the order they are made.\<close>

datatype storeOp =
    OpSetIsPruning bool
  | OpResetSolidEntryPoints
  | OpSolidEntryPointsAdd Hash Index
  | OpStoreSolidEntryPoints
  | OpSetSnapshotInfo SnapshotInfo
  | OpDeleteUnconfirmedMessages Index
  | OpDeleteChild Hash Hash
  | OpDeleteChildren Hash
  | OpDeleteMessage Hash
  | OpDeleteLedgerDiffForMilestone Index
  | OpDeleteMilestone Index
  | OpPruningMilestoneIndexChanged Index
  | OpRunGarbageCollection

text \<open>
  The node's state as the engine sees it: the persisted snapshot info, the message store
  with its children index, the milestones, ledger diffs, unconfirmed lists and bundles, the
  entry points in memory and as stored, the \<^verbatim>\<open>isPruning\<close> flag, and the calls made
  so far.
\<close>

record Store =
  snapshotInfo :: "SnapshotInfo option"
  messages :: "Hash \<rightharpoonup> Message"
  children :: "Hash \<Rightarrow> Hash set"
  milestones :: "Index \<rightharpoonup> Milestone"
  ledgerDiffs :: "Index set"
  unconfirmedMessageIDs :: "Index \<Rightarrow> Hash list"
  bundlesOfTransaction :: "Hash \<rightharpoonup> Bundle list"
  solidEntryPoints :: "Hash \<rightharpoonup> Index"
  storedSolidEntryPoints :: "Hash \<rightharpoonup> Index"
  isPruning :: bool
  oplog :: "storeOp list"

text \<open>
  The parts of the repository the engine calls that are outside the sources at hand, taken
  as parameters: the configured threshold, the entry point computation (an error, or the
  new entry points in the order the \<^verbatim>\<open>range\<close> statement visits them), the test
  \<^verbatim>\<open>IsMaybeMilestoneTx\<close>, the parent traversal with the engine's callbacks (an
  error, or the message IDs handed to the consumer), and the error of deleting a ledger
  diff.
\<close>

record pruneEnv =
  SolidEntryPointCheckThresholdPast :: Index
  getSolidEntryPoints :: "Store \<Rightarrow> Index \<Rightarrow> pruneError + (Hash \<times> Index) list"
  IsMaybeMilestoneTx :: "Message \<Rightarrow> bool"
  TraverseParents :: "Store \<Rightarrow> Hash \<Rightarrow> pruneError + Hash list"
  ledgerDiffDeleteErr :: "Index \<Rightarrow> string option"

definition AdditionalPruningThreshold :: Index where
  "AdditionalPruningThreshold = 50"

definition logOp :: "storeOp \<Rightarrow> Store \<Rightarrow> Store" where
  "logOp x st = st\<lparr>oplog := oplog st @ [x]\<rparr>"

subsection \<open>The message store's operations\<close>

text \<open>
  Modelled from the spec: the store's operations are outside the sources at hand. Each
  does what its contract says: \<^verbatim>\<open>SetSnapshotInfo\<close> persists the record,
  \<^verbatim>\<open>DeleteChild\<close> removes one child back-reference of a parent,
  \<^verbatim>\<open>DeleteChildren\<close> removes the children-index entry of a message,
  \<^verbatim>\<open>DeleteMessage\<close> deletes the message and its metadata, and so on.
\<close>

definition SetSnapshotInfo :: "SnapshotInfo \<Rightarrow> Store \<Rightarrow> Store" where
  "SetSnapshotInfo sn st = logOp (OpSetSnapshotInfo sn) (st\<lparr>snapshotInfo := Some sn\<rparr>)"

definition DeleteChild :: "Hash \<Rightarrow> Hash \<Rightarrow> Store \<Rightarrow> Store" where
  "DeleteChild parent child st =
     logOp (OpDeleteChild parent child)
       (st\<lparr>children := (children st)(parent := children st parent - {child})\<rparr>)"

definition DeleteChildren :: "Hash \<Rightarrow> Store \<Rightarrow> Store" where
  "DeleteChildren messageID st =
     logOp (OpDeleteChildren messageID) (st\<lparr>children := (children st)(messageID := {})\<rparr>)"

definition DeleteMessage :: "Hash \<Rightarrow> Store \<Rightarrow> Store" where
  "DeleteMessage messageID st =
     logOp (OpDeleteMessage messageID) (st\<lparr>messages := (messages st)(messageID := None)\<rparr>)"

definition DeleteMilestone :: "Index \<Rightarrow> Store \<Rightarrow> Store" where
  "DeleteMilestone milestoneIndex st =
     logOp (OpDeleteMilestone milestoneIndex)
       (st\<lparr>milestones := (milestones st)(milestoneIndex := None)\<rparr>)"

definition DeleteLedgerDiffForMilestone ::
  "pruneEnv \<Rightarrow> Index \<Rightarrow> Store \<Rightarrow> string option \<times> Store" where
  "DeleteLedgerDiffForMilestone env milestoneIndex st =
     (case ledgerDiffDeleteErr env milestoneIndex of
        Some err \<Rightarrow> (Some err, logOp (OpDeleteLedgerDiffForMilestone milestoneIndex) st)
      | None \<Rightarrow>
          (None, logOp (OpDeleteLedgerDiffForMilestone milestoneIndex)
                   (st\<lparr>ledgerDiffs := ledgerDiffs st - {milestoneIndex}\<rparr>)))"

definition DeleteUnconfirmedMessages :: "Index \<Rightarrow> Store \<Rightarrow> Store" where
  "DeleteUnconfirmedMessages milestoneIndex st =
     logOp (OpDeleteUnconfirmedMessages milestoneIndex)
       (st\<lparr>unconfirmedMessageIDs := (unconfirmedMessageIDs st)(milestoneIndex := [])\<rparr>)"

definition ResetSolidEntryPoints :: "Store \<Rightarrow> Store" where
  "ResetSolidEntryPoints st = logOp OpResetSolidEntryPoints (st\<lparr>solidEntryPoints := Map.empty\<rparr>)"

definition SolidEntryPointsAdd :: "Hash \<Rightarrow> Index \<Rightarrow> Store \<Rightarrow> Store" where
  "SolidEntryPointsAdd messageID milestoneIndex st =
     logOp (OpSolidEntryPointsAdd messageID milestoneIndex)
       (st\<lparr>solidEntryPoints := (solidEntryPoints st)(messageID \<mapsto> milestoneIndex)\<rparr>)"

definition StoreSolidEntryPoints :: "Store \<Rightarrow> Store" where
  "StoreSolidEntryPoints st =
     logOp OpStoreSolidEntryPoints (st\<lparr>storedSolidEntryPoints := solidEntryPoints st\<rparr>)"

definition RunGarbageCollection :: "Store \<Rightarrow> Store" where
  "RunGarbageCollection st = logOp OpRunGarbageCollection st"

definition PruningMilestoneIndexChangedTrigger :: "Index \<Rightarrow> Store \<Rightarrow> Store" where
  "PruningMilestoneIndexChangedTrigger milestoneIndex st =
     logOp (OpPruningMilestoneIndexChanged milestoneIndex) st"

definition setIsPruning :: "bool \<Rightarrow> Store \<Rightarrow> Store" where
  "setIsPruning v st = logOp (OpSetIsPruning v) (st\<lparr>isPruning := v\<rparr>)"

subsection \<open>pruneMessages\<close>

text \<open>
  The body of the loop of \<^verbatim>\<open>pruneMessages\<close> for one message ID, then the loop over
  the keys of the map in the order the \<^verbatim>\<open>range\<close> statement visits them. The
  function returns the size of the map, whatever it deleted.
\<close>

definition pruneMessage :: "Hash \<Rightarrow> Store \<Rightarrow> Store" where
  "pruneMessage messageIDToDelete st =
     (case messages st messageIDToDelete of
        None \<Rightarrow> st
      | Some msg \<Rightarrow>
          DeleteMessage messageIDToDelete
            (DeleteChildren messageIDToDelete
              (DeleteChild (Parent2MessageID msg) messageIDToDelete
                (DeleteChild (Parent1MessageID msg) messageIDToDelete st))))"

fun pruneMessagesLoop :: "Hash list \<Rightarrow> Store \<Rightarrow> Store" where
  "pruneMessagesLoop [] st = st"
| "pruneMessagesLoop (messageIDToDelete # rest) st =
     pruneMessagesLoop rest (pruneMessage messageIDToDelete st)"

definition pruneMessages :: "Hash list \<Rightarrow> Store \<Rightarrow> nat \<times> Store" where
  "pruneMessages messageIDsToDelete st =
     (length messageIDsToDelete, pruneMessagesLoop messageIDsToDelete st)"

subsection \<open>pruneUnconfirmedTransactions and pruneMilestone\<close>

definition inMilestoneBundle :: "Bundle list option \<Rightarrow> bool" where
  "inMilestoneBundle bundles =
     (case bundles of
        None \<Rightarrow> False
      | Some bs \<Rightarrow> bs \<noteq> [] \<and> list_ex MessageIsMilestone bs)"

text \<open>
  The loop labelled \<^verbatim>\<open>loopOverUnconfirmed\<close>: it only reads the store, and builds
  \<^verbatim>\<open>txsToCheckMap\<close>, kept as the list of its keys in the order they were added.
\<close>

fun loopOverUnconfirmed :: "pruneEnv \<Rightarrow> Store \<Rightarrow> Hash list \<Rightarrow> Hash list \<Rightarrow> Hash list" where
  "loopOverUnconfirmed env st [] txsToCheckMap = txsToCheckMap"
| "loopOverUnconfirmed env st (txHash # rest) txsToCheckMap =
     (if txHash \<in> set txsToCheckMap then loopOverUnconfirmed env st rest txsToCheckMap
      else
        case messages st txHash of
          None \<Rightarrow> loopOverUnconfirmed env st rest txsToCheckMap
        | Some cachedMsg \<Rightarrow>
            if IsConfirmed cachedMsg then loopOverUnconfirmed env st rest txsToCheckMap
            else if IsMaybeMilestoneTx env cachedMsg
                    \<and> inMilestoneBundle (bundlesOfTransaction st txHash)
              then loopOverUnconfirmed env st rest txsToCheckMap
            else loopOverUnconfirmed env st rest (txsToCheckMap @ [txHash]))"

definition pruneUnconfirmedTransactions ::
  "pruneEnv \<Rightarrow> Index \<Rightarrow> Store \<Rightarrow> (nat \<times> nat) \<times> Store" where
  "pruneUnconfirmedTransactions env targetIndex st =
     (let txsToCheckMap =
            loopOverUnconfirmed env st (unconfirmedMessageIDs st targetIndex) []
      in case pruneMessages txsToCheckMap st of
           (txCountDeleted, st') \<Rightarrow>
             ((txCountDeleted, length txsToCheckMap),
              DeleteUnconfirmedMessages targetIndex st'))"

definition pruneMilestone :: "pruneEnv \<Rightarrow> Index \<Rightarrow> Store \<Rightarrow> Store" where
  "pruneMilestone env milestoneIndex st =
     (case DeleteLedgerDiffForMilestone env milestoneIndex st of
        (err, st') \<Rightarrow> DeleteMilestone milestoneIndex st')"

subsection \<open>pruneDatabase\<close>

text \<open>
  The body of the milestone loop after the abort check, for one
  \<^verbatim>\<open>milestoneIndex\<close>. \<^verbatim>\<open>snapshotInfo\<close> is the function's local record; it is
  persisted only by \<^verbatim>\<open>SetSnapshotInfo\<close>.
\<close>

definition pruneIteration ::
  "pruneEnv \<Rightarrow> Index \<Rightarrow> SnapshotInfo \<Rightarrow> Store \<Rightarrow> SnapshotInfo \<times> Store" where
  "pruneIteration env milestoneIndex si st =
     (case pruneUnconfirmedTransactions env milestoneIndex st of
        ((txCountDeleted, msgCountChecked), st1) \<Rightarrow>
          (case milestones st1 milestoneIndex of
             None \<Rightarrow> (si, st1)
           | Some cachedMs \<Rightarrow>
               (case TraverseParents env st1 (MessageID cachedMs) of
                  Inl err \<Rightarrow> (si, st1)
                | Inr consumed \<Rightarrow>
                    (case pruneMessages (remdups consumed) st1 of
                       (n, st2) \<Rightarrow>
                         let st3 = pruneMilestone env milestoneIndex st2;
                             si' = si\<lparr>PruningIndex := milestoneIndex\<rparr>;
                             st4 = SetSnapshotInfo si' st3
                         in (si', PruningMilestoneIndexChangedTrigger milestoneIndex st4)))))"

text \<open>
  The milestone loop. Its counter is a 32-bit word, so with a target of \<open>2^32 - 1\<close> the
  loop condition never fails; the loop is therefore run on fuel, one unit per evaluation of
  the loop condition. The first component is \<open>None\<close> when the fuel ran out before the loop
  returned; the state reached so far is returned in either case. \<open>abortSignal k\<close> says
  whether the abort channel is readable at the \<open>k\<close>-th check of the
  \<^verbatim>\<open>select\<close> statement, counted from the current one.
\<close>

fun pruneLoop ::
  "nat \<Rightarrow> pruneEnv \<Rightarrow> (nat \<Rightarrow> bool) \<Rightarrow> Index \<Rightarrow> Index \<Rightarrow> SnapshotInfo \<Rightarrow> Store
     \<Rightarrow> (pruneError + unit) option \<times> SnapshotInfo \<times> Store" where
  "pruneLoop 0 env abortSignal milestoneIndex targetIndex si st = (None, si, st)"
| "pruneLoop (Suc fuel) env abortSignal milestoneIndex targetIndex si st =
     (if \<not> milestoneIndex \<le> targetIndex then (Some (Inr ()), si, st)
      else if abortSignal 0 then (Some (Inl ErrPruningAborted), si, st)
      else
        case pruneIteration env milestoneIndex si st of
          (si', st') \<Rightarrow>
            pruneLoop fuel env (\<lambda>k. abortSignal (Suc k)) (milestoneIndex + 1) targetIndex si' st')"

text \<open>
  The steps between the computation of the new entry points and the milestone loop: the
  entry points are reset, filled and stored, the new \<^verbatim>\<open>EntryPointIndex\<close> is
  persisted, and the unconfirmed messages of the old \<^verbatim>\<open>PruningIndex\<close> are pruned.
  The locks around the entry points have no effect in a sequential run.
\<close>

definition beforeLoop ::
  "pruneEnv \<Rightarrow> Index \<Rightarrow> (Hash \<times> Index) list \<Rightarrow> SnapshotInfo \<Rightarrow> Store \<Rightarrow> SnapshotInfo \<times> Store" where
  "beforeLoop env targetIndex newSolidEntryPoints si st =
     (let st1 = StoreSolidEntryPoints
                  (foldl (\<lambda>s (solidEntryPoint, index). SolidEntryPointsAdd solidEntryPoint index s)
                     (ResetSolidEntryPoints st) newSolidEntryPoints);
          si1 = si\<lparr>EntryPointIndex := targetIndex\<rparr>;
          st2 = SetSnapshotInfo si1 st1
      in (si1, snd (pruneUnconfirmedTransactions env (PruningIndex si1) st2)))"

text \<open>The function from the computation of the entry points on, between the two calls of
  \<^verbatim>\<open>setIsPruning\<close>.\<close>

definition pruneGuarded ::
  "nat \<Rightarrow> pruneEnv \<Rightarrow> Index \<Rightarrow> (nat \<Rightarrow> bool) \<Rightarrow> SnapshotInfo \<Rightarrow> Store
     \<Rightarrow> (pruneError + unit) option \<times> Store" where
  "pruneGuarded fuel env targetIndex abortSignal si st =
     (case getSolidEntryPoints env st targetIndex of
        Inl err \<Rightarrow> (Some (Inl err), st)
      | Inr newSolidEntryPoints \<Rightarrow>
          (case beforeLoop env targetIndex newSolidEntryPoints si st of
             (si1, st3) \<Rightarrow>
               (case pruneLoop fuel env abortSignal (PruningIndex si1 + 1) targetIndex si1 st3 of
                  (None, si', st') \<Rightarrow> (None, st')
                | (Some (Inl err), si', st') \<Rightarrow> (Some (Inl err), st')
                | (Some (Inr u), si', st') \<Rightarrow> (Some (Inr ()), RunGarbageCollection st'))))"

text \<open>The target after the clamp to \<^verbatim>\<open>targetIndexMax\<close>.\<close>

definition clampTarget :: "pruneEnv \<Rightarrow> SnapshotInfo \<Rightarrow> Index \<Rightarrow> Index" where
  "clampTarget env si targetIndex =
     (let targetIndexMax =
            SnapshotIndex si - SolidEntryPointCheckThresholdPast env
              - AdditionalPruningThreshold - 1
      in if targetIndex > targetIndexMax then targetIndexMax else targetIndex)"

text \<open>
  \<^verbatim>\<open>pruneDatabase\<close>: the result is \<open>Some (Inr ())\<close> for \<^verbatim>\<open>nil\<close>,
  \<open>Some (Inl e)\<close> for an error (the panic on a missing snapshot info included), and
  \<open>None\<close> when the milestone loop had not returned within the fuel.
\<close>

definition pruneDatabase ::
  "nat \<Rightarrow> pruneEnv \<Rightarrow> Index \<Rightarrow> (nat \<Rightarrow> bool) \<Rightarrow> Store \<Rightarrow> (pruneError + unit) option \<times> Store" where
  "pruneDatabase fuel env targetIndex abortSignal st =
     (case snapshotInfo st of
        None \<Rightarrow> (Some (Inl PanicNoSnapshotInfo), st)
      | Some si \<Rightarrow>
          if SnapshotIndex si
               < SolidEntryPointCheckThresholdPast env + AdditionalPruningThreshold + 1
          then (Some (Inl ErrNotEnoughHistory), st)
          else
            let targetIndex = clampTarget env si targetIndex in
            if PruningIndex si \<ge> targetIndex then (Some (Inl ErrNoPruningNeeded), st)
            else if EntryPointIndex si + AdditionalPruningThreshold + 1 > targetIndex
              then (Some (Inl ErrNotEnoughHistory), st)
            else
              case pruneGuarded fuel env targetIndex abortSignal si (setIsPruning True st) of
                (None, st') \<Rightarrow> (None, st')
              | (Some r, st') \<Rightarrow> (Some r, setIsPruning False st'))"

subsection \<open>Reading the log of calls\<close>

definition deletesConeData :: "storeOp \<Rightarrow> bool" where
  "deletesConeData x =
     (case x of
        OpDeleteUnconfirmedMessages i \<Rightarrow> True
      | OpDeleteChild p c \<Rightarrow> True
      | OpDeleteChildren h \<Rightarrow> True
      | OpDeleteMessage h \<Rightarrow> True
      | OpDeleteLedgerDiffForMilestone i \<Rightarrow> True
      | OpDeleteMilestone i \<Rightarrow> True
      | _ \<Rightarrow> False)"

text \<open>
  The index of the last milestone whose iteration ran to its end in a log of calls (each
  such iteration ends by firing \<^verbatim>\<open>PruningMilestoneIndexChanged\<close>), or \<open>d\<close> when
  there is none.
\<close>

fun lastCompleted :: "storeOp list \<Rightarrow> Index \<Rightarrow> Index" where
  "lastCompleted [] d = d"
| "lastCompleted (OpPruningMilestoneIndexChanged m # ops) d = lastCompleted ops m"
| "lastCompleted (x # ops) d = lastCompleted ops d"

text \<open>The calls that neither persist the snapshot info nor report a pruned milestone.\<close>

definition quietOp :: "storeOp \<Rightarrow> bool" where
  "quietOp x =
     (case x of
        OpSetSnapshotInfo sn \<Rightarrow> False
      | OpPruningMilestoneIndexChanged i \<Rightarrow> False
      | _ \<Rightarrow> True)"


subsection \<open>Predicates used in the proofs\<close>


text \<open>
  A step of the engine that only appends calls to the log which neither persist the
  snapshot info nor report a pruned milestone; a call that keeps the entry point index
  \<open>e\<close> persisted; and the relation between the local snapshot info and the store before
  and after a part of the milestone loop.
\<close>

definition quietStep :: "Store \<Rightarrow> Store \<Rightarrow> bool" where
  "quietStep st st' =
     (\<exists>new. oplog st' = oplog st @ new \<and> list_all quietOp new
        \<and> snapshotInfo st' = snapshotInfo st)"

definition keepsEntryPointIndex :: "Index \<Rightarrow> storeOp \<Rightarrow> bool" where
  "keepsEntryPointIndex e x =
     (case x of OpSetSnapshotInfo sn \<Rightarrow> EntryPointIndex sn = e | _ \<Rightarrow> True)"

definition tracked :: "SnapshotInfo \<Rightarrow> Store \<Rightarrow> SnapshotInfo \<Rightarrow> Store \<Rightarrow> bool" where
  "tracked si st si' st' =
     (\<exists>new. oplog st' = oplog st @ new \<and> snapshotInfo st' = Some si'
        \<and> PruningIndex si' = lastCompleted new (PruningIndex si)
        \<and> EntryPointIndex si' = EntryPointIndex si
        \<and> SnapshotIndex si' = SnapshotIndex si
        \<and> list_all (keepsEntryPointIndex (EntryPointIndex si)) new)"

section \<open>Concrete states used to run the definitions\<close>

definition exConn :: Conn where
  "exConn = \<lparr>connID = 1, RemotePeer = ''P'', StatDirection = DirOutbound\<rparr>"

definition exStream :: NetStream where
  "exStream = \<lparr>streamID = 7, StreamConn = exConn\<rparr>"

definition exSession :: NetStream where
  "exSession = \<lparr>streamID = 3, StreamConn = exConn\<rparr>"

definition exProto :: Protocol where
  "exProto = \<lparr>PeerID = ''P'', Stream = exSession, SendQueueSize = 1000\<rparr>"

definition exPeerKnown :: Peer where
  "exPeerKnown = \<lparr>ID = ''P'', Relation = PeerRelationKnown\<rparr>"

definition exPeerUnknown :: Peer where
  "exPeerUnknown = \<lparr>ID = ''P'', Relation = PeerRelationUnknown\<rparr>"

text \<open>
  A manager that knows no peer, a transport whose streams open and reset cleanly, and no
  handler attached to \<^verbatim>\<open>InboundStreamCancelled\<close> (no logger configured).
\<close>

definition exEnv :: gossipEnv where
  "exEnv = \<lparr>managerPeers = Map.empty, hostNewStream = (\<lambda>p. Inr exSession),
            streamResetErr = (\<lambda>s. None), optsSendQueueSize = 1000,
            inboundStreamCancelledHandlers = 0\<rparr>"

text \<open>The same with a transport whose reset of a stream fails.\<close>

definition exEnvResetFails :: gossipEnv where
  "exEnvResetFails = exEnv\<lparr>streamResetErr := (\<lambda>s. Some ''stream reset failed'')\<rparr>"

text \<open>The same as \<open>exEnv\<close> with a logger configured: its handler is attached.\<close>

definition exEnvLogger :: gossipEnv where
  "exEnvLogger = exEnv\<lparr>inboundStreamCancelledHandlers := 1\<rparr>"

definition exEmpty :: Service where
  "exEmpty = \<lparr>streams = Map.empty, trace = []\<rparr>"

definition exService :: Service where
  "exService = \<lparr>streams = [''P'' \<mapsto> exProto], trace = []\<rparr>"

definition exPanic :: goPanic where
  "exPanic = InterfaceConversion ''interface {} is string, not gossip.StreamCancelReason''"

text \<open>
  A store with the snapshot at milestone 1000, entry points computed up to 700 and pruned
  up to 800. The record of milestone 801 is absent, those of 802 and 803 are present. The
  unconfirmed message \<open>a\<close>, listed for 801, has a milestone among its bundles.
\<close>

definition exInfo :: SnapshotInfo where
  "exInfo = \<lparr>SnapshotIndex = 1000, EntryPointIndex = 700, PruningIndex = 800\<rparr>"

definition exMsg :: Message where
  "exMsg = \<lparr>Parent1MessageID = ''g'', Parent2MessageID = ''g'', IsConfirmed = False\<rparr>"

definition exStore :: Store where
  "exStore =
     \<lparr>snapshotInfo = Some exInfo,
      messages = [''a'' \<mapsto> exMsg, ''m2'' \<mapsto> exMsg, ''m3'' \<mapsto> exMsg],
      children = (\<lambda>h. if h = ''g'' then {''a'', ''m2'', ''m3''} else {}),
      milestones = [802 \<mapsto> \<lparr>MessageID = ''m2''\<rparr>, 803 \<mapsto> \<lparr>MessageID = ''m3''\<rparr>],
      ledgerDiffs = {802, 803},
      unconfirmedMessageIDs = (\<lambda>i. if i = 801 then [''a''] else []),
      bundlesOfTransaction = [''a'' \<mapsto> [\<lparr>MessageIsMilestone = True\<rparr>]],
      solidEntryPoints = Map.empty,
      storedSolidEntryPoints = Map.empty,
      isPruning = False,
      oplog = []\<rparr>"

definition exPruneEnv :: pruneEnv where
  "exPruneEnv =
     \<lparr>SolidEntryPointCheckThresholdPast = 50,
      getSolidEntryPoints = (\<lambda>st i. Inr [(''e'', i)]),
      IsMaybeMilestoneTx = (\<lambda>m. True),
      TraverseParents = (\<lambda>st h. Inr [h]),
      ledgerDiffDeleteErr = (\<lambda>i. None)\<rparr>"


definition exShortInfo :: SnapshotInfo where
  "exShortInfo = \<lparr>SnapshotIndex = 100, EntryPointIndex = 50, PruningIndex = 50\<rparr>"

section \<open>Properties of the gossip service\<close>

subsection \<open>Inbound streams\<close>

text \<open>
  Firing \<^verbatim>\<open>InboundStreamCancelled\<close> with one of the two reasons of the service
  panics as soon as a handler is attached, and returns when none is.
\<close>

lemma triggerInboundStreamCancelled_AsString:
  "triggerInboundStreamCancelled env stream (AsString r) s =
     (if inboundStreamCancelledHandlers env = 0
      then Inr (s\<lparr>trace := trace s @ [Emit (InboundStreamCancelled stream r)]\<rparr>)
      else Inl (InterfaceConversion ''interface {} is string, not gossip.StreamCancelReason''))"
  by (simp add: triggerInboundStreamCancelled_def StreamCancelCaller_def trigger_def
        reasonText_def)

lemma handleInboundStream_duplicated_unobserved:
  assumes "streams s (RemotePeer (StreamConn stream)) = Some proto"
    and "inboundStreamCancelledHandlers env = 0"
  shows "handleInboundStream env stream s =
           (Inr None, s\<lparr>trace := trace s @
              [Emit (InboundStreamCancelled stream ''duplicated stream''),
               ConnClose (StreamConn stream), StreamReset stream]\<rparr>)"
  using assms
  by (simp add: handleInboundStream_def triggerInboundStreamCancelled_AsString
        closeUnwantedStream_def StreamCancelReasonDuplicated_def)

lemma handleInboundStream_duplicated_panics:
  assumes "streams s (RemotePeer (StreamConn stream)) = Some proto"
    and "0 < inboundStreamCancelledHandlers env"
  shows "handleInboundStream env stream s =
           (Inl (InterfaceConversion ''interface {} is string, not gossip.StreamCancelReason''), s)"
  using assms
  by (simp add: handleInboundStream_def triggerInboundStreamCancelled_AsString)

text \<open>
  Claim C7, run with the handler of the service's own logger attached. A session exists
  for the remote peer of the inbound stream. Firing \<^verbatim>\<open>InboundStreamCancelled\<close>
  panics in \<^verbatim>\<open>StreamCancelCaller\<close>, before the handler is called and before
  \<^verbatim>\<open>closeUnwantedStream\<close>: the event reaches no handler, neither the connection nor
  the stream is closed, and the event loop ends with the panic, so that no later message
  is handled. Only the map of sessions is as the claim says: unchanged.
\<close>

theorem duplicated_inbound_stream_panics_with_handler:
  "streams exService (RemotePeer (StreamConn exStream)) = Some exProto
   \<and> inboundStreamCancelledHandlers exEnvLogger = 1
   \<and> handleInboundStream exEnvLogger exStream exService = (Inl exPanic, exService)
   \<and> eventLoopCase exEnvLogger (InboundStreamMsg exStream) exService = (Some exPanic, exService)
   \<and> eventLoop exEnvLogger [InboundStreamMsg exStream, DisconnectedMsg exPeerKnown] exService
       = (Some exPanic, exService)
   \<and> trace (snd (eventLoopCase exEnvLogger (InboundStreamMsg exStream) exService)) = []"
  by (simp add: exService_def exEnvLogger_def exEnv_def exStream_def exConn_def exPanic_def
        handleInboundStream_def triggerInboundStreamCancelled_AsString)

text \<open>
  Claim C10 as stated fails where a session exists for the remote peer: the test for an
  ongoing session comes first, so the stream of a peer unknown to the manager is then
  cancelled as "duplicated stream" (here with no handler attached, so that firing returns).
\<close>

theorem unknown_to_manager_with_session_is_duplicated:
  "managerPeers exEnv (RemotePeer (StreamConn exStream)) = None
   \<and> handleInboundStream exEnv exStream exService =
       (Inr None, exService\<lparr>trace :=
          [Emit (InboundStreamCancelled exStream ''duplicated stream''),
           ConnClose exConn, StreamReset exStream]\<rparr>)
   \<and> Emit (InboundStreamCancelled exStream ''insufficient peer relation'')
       \<notin> set (trace (snd (handleInboundStream exEnv exStream exService)))"
  by (simp add: exService_def exEnv_def exStream_def exConn_def
        handleInboundStream_def triggerInboundStreamCancelled_AsString
        closeUnwantedStream_def StreamCancelReasonDuplicated_def Let_def)

text \<open>
  Claim C10, amended. An inbound stream whose remote peer has no session and no record in
  the peer manager (so that \<^verbatim>\<open>Call\<close> never runs the function it is given) is
  handled exactly as the stream of a peer recorded with the relation Unknown, and no
  session is registered: the map of sessions is unchanged and no session is returned.
  Where no handler is attached to \<^verbatim>\<open>InboundStreamCancelled\<close>, so that firing it
  returns, the stream is cancelled with the reason "insufficient peer relation", its
  connection closed and the stream reset.
\<close>

theorem handleInboundStream_unknown_to_manager:
  assumes "streams s (RemotePeer (StreamConn stream)) = None"
    and "managerPeers env (RemotePeer (StreamConn stream)) = None"
  shows "handleInboundStream env stream s =
           handleInboundStream
             (env\<lparr>managerPeers := (managerPeers env)(RemotePeer (StreamConn stream) \<mapsto>
                \<lparr>ID = RemotePeer (StreamConn stream), Relation = PeerRelationUnknown\<rparr>)\<rparr>)
             stream s
         \<and> streams (snd (handleInboundStream env stream s)) = streams s
         \<and> (\<forall>proto. fst (handleInboundStream env stream s) \<noteq> Inr (Some proto))
         \<and> (inboundStreamCancelledHandlers env = 0 \<longrightarrow>
              handleInboundStream env stream s =
                (Inr None, s\<lparr>trace := trace s @
                   [Emit (InboundStreamCancelled stream ''insufficient peer relation''),
                    ConnClose (StreamConn stream), StreamReset stream]\<rparr>)
              \<and> eventLoopCase env (InboundStreamMsg stream) s =
                  (None, snd (handleInboundStream env stream s)))"
  using assms
  by (simp add: handleInboundStream_def triggerInboundStreamCancelled_AsString
        closeUnwantedStream_def managerCall_def
        StreamCancelReasonInsufficientPeerRelation_def)

theorem handleInboundStream_unknown_to_manager_witness:
  "streams exEmpty (RemotePeer (StreamConn exStream)) = None
   \<and> managerPeers exEnv (RemotePeer (StreamConn exStream)) = None
   \<and> inboundStreamCancelledHandlers exEnv = 0
   \<and> handleInboundStream exEnv exStream exEmpty =
       (Inr None, \<lparr>streams = Map.empty, trace =
          [Emit (InboundStreamCancelled exStream ''insufficient peer relation''),
           ConnClose exConn, StreamReset exStream]\<rparr>)"
proof -
  have h1: "streams exEmpty (RemotePeer (StreamConn exStream)) = None"
    by (simp add: exEmpty_def)
  have h2: "managerPeers exEnv (RemotePeer (StreamConn exStream)) = None"
    by (simp add: exEnv_def)
  have h3: "inboundStreamCancelledHandlers exEnv = 0"
    by (simp add: exEnv_def)
  from handleInboundStream_unknown_to_manager [OF h1 h2, THEN conjunct2, THEN conjunct2,
      THEN conjunct2, THEN mp, OF h3, THEN conjunct1]
  have "handleInboundStream exEnv exStream exEmpty =
          (Inr None, exEmpty\<lparr>trace := trace exEmpty @
             [Emit (InboundStreamCancelled exStream ''insufficient peer relation''),
              ConnClose (StreamConn exStream), StreamReset exStream]\<rparr>)" .
  with h1 h2 h3 show ?thesis
    by (simp add: exEmpty_def exStream_def)
qed

subsection \<open>Closing sessions\<close>

text \<open>
  What deregistration does in general: the session leaves the map whether or not the reset
  of its stream fails, and the first component of the result says that one was removed.
\<close>

lemma deregisterProtocol_removes:
  "streams (snd (deregisterProtocol env peerID s)) peerID = None"
  by (auto simp: deregisterProtocol_def Let_def split: option.splits)

lemma closeStream_removes: "streams (closeStream env peerID s) peerID = None"
  by (auto simp: closeStream_def deregisterProtocol_def trigger_def Let_def split: option.splits)

lemma closeStream_reset_ok:
  assumes "streams s peerID = Some proto" and "streamResetErr env (Stream proto) = None"
  shows "closeStream env peerID s =
           s\<lparr>streams := (streams s)(peerID := None),
              trace := trace s @ [StreamReset (Stream proto),
                                  Emit (ProtocolTerminated (Some proto))]\<rparr>"
  using assms by (simp add: closeStream_def deregisterProtocol_def trigger_def Let_def)

lemma closeStream_reset_fails:
  assumes "streams s peerID = Some proto" and "streamResetErr env (Stream proto) = Some err"
  shows "closeStream env peerID s =
           s\<lparr>streams := (streams s)(peerID := None),
              trace := trace s @ [StreamReset (Stream proto),
                                  Emit (ErrorEvent (UnableToResetStream peerID err))]\<rparr>"
  using assms by (simp add: closeStream_def deregisterProtocol_def trigger_def Let_def)

lemma relationUpdated_to_unknown:
  assumes "streams s (ID peer) = Some proto" and "Relation peer = PeerRelationUnknown"
    and "streamResetErr env (Stream proto) = None"
  shows "eventLoopCase env (RelationUpdatedMsg peer oldRelation) s =
           (None, s\<lparr>streams := (streams s)(ID peer := None),
                    trace := trace s @ [StreamReset (Stream proto)]\<rparr>)"
  using assms
  by (simp add: handleRelationUpdated_def deregisterProtocol_def startedOrError_def Let_def)

text \<open>
  Claim C1, run on the scenario it comes from. The peer connects outbound, which starts a
  session; the manager then reports the relation of the peer as changed from Known to
  Unknown. The loop removes the session and resets its stream, without a panic, and the
  trace holds no \<^verbatim>\<open>ProtocolTerminated\<close> for it: the event is fired zero times, not
  once.
\<close>

theorem relationUpdated_downgrade_fires_no_ProtocolTerminated:
  "eventLoop exEnv [ConnectedMsg exPeerKnown exConn] exEmpty
     = (None, \<lparr>streams = [''P'' \<mapsto> exProto],
               trace = [StreamRead exSession, Emit (ProtocolStarted (Some exProto))]\<rparr>)
   \<and> eventLoop exEnv
       [ConnectedMsg exPeerKnown exConn, RelationUpdatedMsg exPeerUnknown PeerRelationKnown]
       exEmpty
     = (None, \<lparr>streams = Map.empty,
               trace = [StreamRead exSession, Emit (ProtocolStarted (Some exProto)),
                        StreamReset exSession]\<rparr>)
   \<and> terminatedCount exProto
       (trace (snd (eventLoop exEnv
          [ConnectedMsg exPeerKnown exConn, RelationUpdatedMsg exPeerUnknown PeerRelationKnown]
          exEmpty))) = 0"
  by (simp add: exEmpty_def exEnv_def exPeerKnown_def exPeerUnknown_def exConn_def
        exProto_def startedOrError_def handleConnected_def openStream_def
        registerProtocol_def NewProtocol_def trigger_def
        handleRelationUpdated_def deregisterProtocol_def terminatedCount_def Let_def)

text \<open>
  Claim C5, run where the reset of the stream fails. On \<^verbatim>\<open>disconnected\<close> and on
  \<^verbatim>\<open>streamClosed\<close> alike the session is removed and the error is fired on the bus, but
  \<^verbatim>\<open>closeStream\<close> returns right after firing it: no \<^verbatim>\<open>ProtocolTerminated\<close> is
  fired for the session that was removed.
\<close>

theorem closeStream_reset_error_fires_no_ProtocolTerminated:
  "eventLoopCase exEnvResetFails (DisconnectedMsg exPeerKnown) exService
     = (None, \<lparr>streams = Map.empty,
               trace = [StreamReset exSession,
                        Emit (ErrorEvent (UnableToResetStream ''P'' ''stream reset failed''))]\<rparr>)
   \<and> eventLoopCase exEnvResetFails (StreamClosedMsg ''P'' exSession) exService
     = eventLoopCase exEnvResetFails (DisconnectedMsg exPeerKnown) exService
   \<and> fst (fst (deregisterProtocol exEnvResetFails ''P'' exService))
   \<and> terminatedCount exProto
       (trace (snd (eventLoopCase exEnvResetFails (DisconnectedMsg exPeerKnown) exService))) = 0"
  by (simp add: exService_def exEnvResetFails_def exEnv_def exPeerKnown_def exProto_def
        closeStream_def deregisterProtocol_def trigger_def terminatedCount_def Let_def)

section \<open>Properties of the pruning engine\<close>

subsection \<open>Pruning messages\<close>

lemma pruneMessage_messages:
  "messages (pruneMessage h st) = (messages st)(h := None)"
  by (auto simp: pruneMessage_def DeleteMessage_def DeleteChildren_def DeleteChild_def logOp_def
      split: option.splits)

lemma pruneMessage_absent: "messages st h = None \<Longrightarrow> pruneMessage h st = st"
  by (simp add: pruneMessage_def)

lemma pruneMessagesLoop_messages:
  "messages (pruneMessagesLoop ids st) h = (if h \<in> set ids then None else messages st h)"
  by (induction ids arbitrary: st) (auto simp: pruneMessage_messages)

lemma pruneMessagesLoop_absent:
  "(\<And>h. h \<in> set ids \<Longrightarrow> messages st h = None) \<Longrightarrow> pruneMessagesLoop ids st = st"
  by (induction ids arbitrary: st) (auto simp: pruneMessage_absent)

text \<open>
  Claim C9. \<^verbatim>\<open>pruneMessages\<close> is idempotent per message: for a message ID that is
  absent from the store the body of its loop leaves the whole state as it is, the log of
  calls included, so no store operation is called for it; and after one run over a set of
  IDs, a second run over the same set (or a part of it, visited in any order) returns the
  size of its set and leaves the state of the first run as it is.
\<close>

theorem pruneMessages_idempotent:
  "(messages st h = None \<longrightarrow> pruneMessage h st = st)
   \<and> (set ids' \<subseteq> set ids \<longrightarrow>
        pruneMessages ids' (snd (pruneMessages ids st)) = (length ids', snd (pruneMessages ids st)))"
  by (auto simp: pruneMessages_def pruneMessage_absent pruneMessagesLoop_messages
        intro!: pruneMessagesLoop_absent)


subsection \<open>The log of calls and the snapshot info\<close>

lemma lastCompleted_append:
  "lastCompleted (xs @ ys) d = lastCompleted ys (lastCompleted xs d)"
  by (induction xs d rule: lastCompleted.induct) simp_all

lemma lastCompleted_quiet: "list_all quietOp xs \<Longrightarrow> lastCompleted xs d = d"
  by (induction xs d rule: lastCompleted.induct) (simp_all add: quietOp_def)

lemma quietStep_refl: "quietStep st st"
  by (simp add: quietStep_def)

lemma quietStep_trans: "quietStep a b \<Longrightarrow> quietStep b c \<Longrightarrow> quietStep a c"
  by (auto simp: quietStep_def)

lemma quietStep_logOp:
  "quietOp x \<Longrightarrow> snapshotInfo st' = snapshotInfo st \<Longrightarrow> oplog st' = oplog st
     \<Longrightarrow> quietStep st (logOp x st')"
  by (simp add: quietStep_def logOp_def)

lemma quietStep_pruneMessage: "quietStep st (pruneMessage h st)"
  by (auto simp: pruneMessage_def quietStep_def DeleteMessage_def DeleteChildren_def
        DeleteChild_def logOp_def quietOp_def split: option.splits)

lemma quietStep_pruneMessagesLoop: "quietStep st (pruneMessagesLoop ids st)"
proof (induction ids arbitrary: st)
  case Nil
  show ?case by (simp add: quietStep_refl)
next
  case (Cons h ids)
  from quietStep_trans [OF quietStep_pruneMessage Cons] show ?case by simp
qed

lemma quietStep_DeleteUnconfirmedMessages: "quietStep st (DeleteUnconfirmedMessages i st)"
  by (simp add: quietStep_def DeleteUnconfirmedMessages_def logOp_def quietOp_def)

lemma snd_pruneUnconfirmedTransactions:
  "snd (pruneUnconfirmedTransactions env i st) =
     DeleteUnconfirmedMessages i
       (pruneMessagesLoop (loopOverUnconfirmed env st (unconfirmedMessageIDs st i) []) st)"
  by (simp add: pruneUnconfirmedTransactions_def pruneMessages_def Let_def)

lemma quietStep_pruneUnconfirmedTransactions:
  "quietStep st (snd (pruneUnconfirmedTransactions env i st))"
  using quietStep_trans [OF quietStep_pruneMessagesLoop quietStep_DeleteUnconfirmedMessages]
  by (simp add: snd_pruneUnconfirmedTransactions)

lemma pruneIteration_unfold:
  "pruneIteration env m si st =
     (let st1 = snd (pruneUnconfirmedTransactions env m st) in
      case milestones st1 m of
        None \<Rightarrow> (si, st1)
      | Some cachedMs \<Rightarrow>
          (case TraverseParents env st1 (MessageID cachedMs) of
             Inl err \<Rightarrow> (si, st1)
           | Inr consumed \<Rightarrow>
               (si\<lparr>PruningIndex := m\<rparr>,
                PruningMilestoneIndexChangedTrigger m
                  (SetSnapshotInfo (si\<lparr>PruningIndex := m\<rparr>)
                     (pruneMilestone env m (pruneMessagesLoop (remdups consumed) st1))))))"
  by (simp add: pruneIteration_def pruneMessages_def Let_def
        split: prod.splits option.splits sum.splits)

lemma quietStep_pruneMilestone: "quietStep st (pruneMilestone env i st)"
  by (auto simp: pruneMilestone_def quietStep_def DeleteLedgerDiffForMilestone_def
        DeleteMilestone_def logOp_def quietOp_def split: option.splits)

lemma milestones_pruneMessage: "milestones (pruneMessage h st) = milestones st"
  by (auto simp: pruneMessage_def DeleteMessage_def DeleteChildren_def
        DeleteChild_def logOp_def split: option.splits)

lemma milestones_pruneMessagesLoop: "milestones (pruneMessagesLoop ids st) = milestones st"
  by (induction ids arbitrary: st) (simp_all add: milestones_pruneMessage)

lemma milestones_pruneUnconfirmedTransactions:
  "milestones (snd (pruneUnconfirmedTransactions env i st)) = milestones st"
  by (simp add: snd_pruneUnconfirmedTransactions
        DeleteUnconfirmedMessages_def logOp_def milestones_pruneMessagesLoop)

lemma tracked_refl: "snapshotInfo st = Some si \<Longrightarrow> tracked si st si st"
  by (simp add: tracked_def)

lemma tracked_trans:
  assumes "tracked si st si1 st1" and "tracked si1 st1 si2 st2"
  shows "tracked si st si2 st2"
proof -
  from assms(1) obtain n1 where a: "oplog st1 = oplog st @ n1" "snapshotInfo st1 = Some si1"
    "PruningIndex si1 = lastCompleted n1 (PruningIndex si)"
    "EntryPointIndex si1 = EntryPointIndex si" "SnapshotIndex si1 = SnapshotIndex si"
    "list_all (keepsEntryPointIndex (EntryPointIndex si)) n1"
    unfolding tracked_def by blast
  from assms(2) obtain n2 where b: "oplog st2 = oplog st1 @ n2" "snapshotInfo st2 = Some si2"
    "PruningIndex si2 = lastCompleted n2 (PruningIndex si1)"
    "EntryPointIndex si2 = EntryPointIndex si1" "SnapshotIndex si2 = SnapshotIndex si1"
    "list_all (keepsEntryPointIndex (EntryPointIndex si1)) n2"
    unfolding tracked_def by blast
  show ?thesis
    unfolding tracked_def
    by (rule exI [of _ "n1 @ n2"]) (use a b in \<open>simp add: lastCompleted_append\<close>)
qed

lemma tracked_quiet:
  assumes "snapshotInfo st = Some si" and "quietStep st st'"
  shows "tracked si st si st'"
proof -
  from assms(2) obtain new where n: "oplog st' = oplog st @ new" "list_all quietOp new"
    "snapshotInfo st' = snapshotInfo st" by (auto simp: quietStep_def)
  have "list_all (keepsEntryPointIndex (EntryPointIndex si)) new"
    using n(2) by (auto simp: list_all_iff quietOp_def keepsEntryPointIndex_def split: storeOp.splits)
  with n assms(1) show ?thesis
    by (auto simp: tracked_def lastCompleted_quiet)
qed

lemma tracked_complete:
  "tracked si st (si\<lparr>PruningIndex := m\<rparr>)
     (PruningMilestoneIndexChangedTrigger m (SetSnapshotInfo (si\<lparr>PruningIndex := m\<rparr>) st))"
  by (simp add: tracked_def PruningMilestoneIndexChangedTrigger_def SetSnapshotInfo_def logOp_def
        keepsEntryPointIndex_def)

lemma tracked_pruneIteration:
  assumes "snapshotInfo st = Some si"
  shows "tracked si st (fst (pruneIteration env m si st)) (snd (pruneIteration env m si st))"
proof -
  let ?st1 = "snd (pruneUnconfirmedTransactions env m st)"
  have q1: "quietStep st ?st1" by (rule quietStep_pruneUnconfirmedTransactions)
  have t1: "tracked si st si ?st1" by (rule tracked_quiet [OF assms q1])
  show ?thesis
  proof (cases "milestones ?st1 m")
    case None
    then show ?thesis using t1
      by (simp add: pruneIteration_unfold)
  next
    case (Some ms)
    show ?thesis
    proof (cases "TraverseParents env ?st1 (MessageID ms)")
      case (Inl e)
      then show ?thesis using t1 Some
        by (simp add: pruneIteration_unfold)
    next
      case (Inr consumed)
      let ?st2 = "pruneMessagesLoop (remdups consumed) ?st1"
      let ?st3 = "pruneMilestone env m ?st2"
      have "quietStep st ?st3"
        using quietStep_trans [OF q1 quietStep_trans [OF quietStep_pruneMessagesLoop quietStep_pruneMilestone]] .
      from tracked_quiet [OF assms this] have t3: "tracked si st si ?st3" .
      from tracked_trans [OF t3 tracked_complete] 
      show ?thesis using Some Inr
        by (simp add: pruneIteration_unfold)
    qed
  qed
qed

lemma tracked_pruneLoop:
  "snapshotInfo st = Some si \<Longrightarrow>
   tracked si st (fst (snd (pruneLoop fuel env abort m t si st)))
     (snd (snd (pruneLoop fuel env abort m t si st)))"
proof (induction fuel arbitrary: abort m si st)
  case 0
  then show ?case by (simp add: tracked_refl)
next
  case (Suc fuel)
  obtain si' st' where it: "pruneIteration env m si st = (si', st')" by (cases "pruneIteration env m si st")
  from tracked_pruneIteration [OF Suc.prems, of env m] it
  have t1: "tracked si st si' st'" by simp
  then have "snapshotInfo st' = Some si'" by (auto simp: tracked_def)
  from tracked_trans [OF t1 Suc.IH [OF this]] it Suc.prems show ?case
    by (simp add: tracked_refl)
qed




lemma oplog_foldl_SolidEntryPointsAdd:
  "oplog (foldl (\<lambda>s (h, i). SolidEntryPointsAdd h i s) st seps) =
     oplog st @ map (\<lambda>(h, i). OpSolidEntryPointsAdd h i) seps"
  by (induction seps arbitrary: st) (auto simp: SolidEntryPointsAdd_def logOp_def)

lemma beforeLoop_log:
  "fst (beforeLoop env t seps si st) = si\<lparr>EntryPointIndex := t\<rparr>
   \<and> snapshotInfo (snd (beforeLoop env t seps si st)) = Some (si\<lparr>EntryPointIndex := t\<rparr>)
   \<and> (\<exists>new. oplog (snd (beforeLoop env t seps si st)) =
          oplog st @ [OpResetSolidEntryPoints] @ map (\<lambda>(h, i). OpSolidEntryPointsAdd h i) seps
            @ [OpStoreSolidEntryPoints, OpSetSnapshotInfo (si\<lparr>EntryPointIndex := t\<rparr>)] @ new
        \<and> list_all quietOp new)"
proof -
  let ?si1 = "si\<lparr>EntryPointIndex := t\<rparr>"
  let ?st2 = "SetSnapshotInfo ?si1 (StoreSolidEntryPoints
                  (foldl (\<lambda>s (h, i). SolidEntryPointsAdd h i s) (ResetSolidEntryPoints st) seps))"
  have b: "beforeLoop env t seps si st =
             (?si1, snd (pruneUnconfirmedTransactions env (PruningIndex si) ?st2))"
    by (simp add: beforeLoop_def Let_def)
  have l2: "oplog ?st2 = oplog st @ [OpResetSolidEntryPoints]
              @ map (\<lambda>(h, i). OpSolidEntryPointsAdd h i) seps
              @ [OpStoreSolidEntryPoints, OpSetSnapshotInfo ?si1]"
    by (simp add: SetSnapshotInfo_def StoreSolidEntryPoints_def logOp_def
          oplog_foldl_SolidEntryPointsAdd ResetSolidEntryPoints_def)
  have s2: "snapshotInfo ?st2 = Some ?si1"
    by (simp add: SetSnapshotInfo_def logOp_def)
  from quietStep_pruneUnconfirmedTransactions [of ?st2 env "PruningIndex si"]
  obtain new where n: "oplog (snd (pruneUnconfirmedTransactions env (PruningIndex si) ?st2))
        = oplog ?st2 @ new" "list_all quietOp new"
     "snapshotInfo (snd (pruneUnconfirmedTransactions env (PruningIndex si) ?st2)) = snapshotInfo ?st2"
    unfolding quietStep_def by blast
  show ?thesis
    unfolding b using n l2 s2 by simp
qed

subsection \<open>pruneDatabase\<close>

lemma pruneDatabase_guards_passed:
  assumes "snapshotInfo st = Some si"
    and "\<not> SnapshotIndex si < SolidEntryPointCheckThresholdPast env + AdditionalPruningThreshold + 1"
    and "t = clampTarget env si targetIndex"
    and "PruningIndex si < t"
    and "EntryPointIndex si + AdditionalPruningThreshold + 1 \<le> t"
  shows "pruneDatabase fuel env targetIndex abort st =
           (case pruneGuarded fuel env t abort si (setIsPruning True st) of
              (None, st') \<Rightarrow> (None, st')
            | (Some r, st') \<Rightarrow> (Some r, setIsPruning False st'))"
proof -
  have "\<not> t \<le> PruningIndex si" using assms(4) by simp
  moreover have "\<not> t < EntryPointIndex si + AdditionalPruningThreshold + 1"
    using assms(5) by simp
  ultimately show ?thesis
    using assms(1,2) unfolding assms(3) pruneDatabase_def Let_def
    by (simp del: not_le not_less)
qed

lemma keeps_of_quiet: "list_all quietOp xs \<Longrightarrow> list_all (keepsEntryPointIndex e) xs"
  by (auto simp: list_all_iff quietOp_def keepsEntryPointIndex_def split: storeOp.splits)



lemma list_all_adds:
  "list_all (\<lambda>x. \<not> deletesConeData x) (map (\<lambda>(h, i). OpSolidEntryPointsAdd h i) seps)"
  by (induction seps) (auto simp: deletesConeData_def)

text \<open>
  Claim C3. In every run of \<^verbatim>\<open>pruneDatabase\<close> that passes its guards, whatever
  the fuel and the abort signal: when the entry point computation fails, nothing but the
  \<^verbatim>\<open>isPruning\<close> flag is touched; otherwise the calls made are, in this order, a
  prefix \<open>pre\<close> without any deletion of cone data (the flag, the reset and the filling of
  the entry points), then \<^verbatim>\<open>StoreSolidEntryPoints\<close>, then
  \<^verbatim>\<open>SetSnapshotInfo\<close> with \<^verbatim>\<open>EntryPointIndex\<close> set to the target, then the
  rest \<open>post\<close>, in which every \<^verbatim>\<open>SetSnapshotInfo\<close> keeps that entry point index.
  Every deletion of unconfirmed messages, cone messages, milestones and ledger diffs is
  therefore in \<open>post\<close>, made while the persisted \<^verbatim>\<open>EntryPointIndex\<close> is the target.
\<close>

theorem entry_points_persisted_before_deletion:
  assumes "snapshotInfo st = Some si"
    and "\<not> SnapshotIndex si < SolidEntryPointCheckThresholdPast env + AdditionalPruningThreshold + 1"
    and "t = clampTarget env si targetIndex"
    and "PruningIndex si < t"
    and "EntryPointIndex si + AdditionalPruningThreshold + 1 \<le> t"
  shows "case getSolidEntryPoints env (setIsPruning True st) t of
           Inl err \<Rightarrow>
             oplog (snd (pruneDatabase fuel env targetIndex abort st)) =
               oplog st @ [OpSetIsPruning True, OpSetIsPruning False]
         | Inr seps \<Rightarrow>
             (\<exists>pre post.
                pre = [OpSetIsPruning True, OpResetSolidEntryPoints]
                        @ map (\<lambda>(h, i). OpSolidEntryPointsAdd h i) seps
              \<and> oplog (snd (pruneDatabase fuel env targetIndex abort st)) =
                  oplog st @ pre
                    @ [OpStoreSolidEntryPoints, OpSetSnapshotInfo (si\<lparr>EntryPointIndex := t\<rparr>)]
                    @ post
              \<and> list_all (\<lambda>x. \<not> deletesConeData x) pre
              \<and> list_all (keepsEntryPointIndex t) post)"
proof (cases "getSolidEntryPoints env (setIsPruning True st) t")
  case (Inl err)
  then show ?thesis
    unfolding pruneDatabase_guards_passed [OF assms]
    by (simp add: pruneGuarded_def setIsPruning_def logOp_def)
next
  case (Inr seps)
  let ?st0 = "setIsPruning True st"
  let ?si1 = "si\<lparr>EntryPointIndex := t\<rparr>"
  let ?pre = "[OpSetIsPruning True, OpResetSolidEntryPoints]
                @ map (\<lambda>(h, i). OpSolidEntryPointsAdd h i) seps"
  obtain si1 st3 where bl0: "beforeLoop env t seps si ?st0 = (si1, st3)"
    by (cases "beforeLoop env t seps si ?st0")
  from beforeLoop_log [of env t seps si ?st0] bl0
  obtain new1 where b: "si1 = ?si1"
    "snapshotInfo st3 = Some ?si1"
    "oplog st3 = oplog st @ ?pre @ [OpStoreSolidEntryPoints, OpSetSnapshotInfo ?si1] @ new1"
    "list_all quietOp new1"
    by (auto simp: setIsPruning_def logOp_def)
  have bl: "beforeLoop env t seps si ?st0 = (?si1, st3)"
    using bl0 b(1) by simp
  let ?r = "pruneLoop fuel env abort (PruningIndex ?si1 + 1) t ?si1 st3"
  from tracked_pruneLoop [OF b(2), of fuel env abort "PruningIndex ?si1 + 1" t]
  obtain new2 where l: "oplog (snd (snd ?r)) = oplog st3 @ new2"
    "list_all (keepsEntryPointIndex t) new2"
    by (auto simp: tracked_def)
  obtain res si' st' where r: "?r = (res, si', st')" by (cases ?r) auto
  have "\<exists>tl. oplog (snd (pruneDatabase fuel env targetIndex abort st)) = oplog st' @ tl
          \<and> list_all (keepsEntryPointIndex t) tl"
    unfolding pruneDatabase_guards_passed [OF assms]
    using Inr bl r
    by (auto simp: pruneGuarded_def setIsPruning_def RunGarbageCollection_def logOp_def
          keepsEntryPointIndex_def split: option.splits sum.splits)
  then obtain tl where t: "oplog (snd (pruneDatabase fuel env targetIndex abort st)) = oplog st' @ tl"
    "list_all (keepsEntryPointIndex t) tl" by blast
  have "oplog (snd (pruneDatabase fuel env targetIndex abort st)) =
          oplog st @ ?pre @ [OpStoreSolidEntryPoints, OpSetSnapshotInfo ?si1] @ (new1 @ new2 @ tl)"
    using t(1) l(1) b(3) r by simp
  moreover have "list_all (keepsEntryPointIndex t) (new1 @ new2 @ tl)"
    using keeps_of_quiet [OF b(4)] l(2) t(2) by simp
  moreover have "list_all (\<lambda>x. \<not> deletesConeData x) ?pre"
    using list_all_adds [of seps] by (simp add: deletesConeData_def)
  ultimately show ?thesis using Inr by auto
qed


text \<open>
  Claim C2, amended. With \<^verbatim>\<open>SnapshotInfo\<close> = (100, 50, 50), the threshold 50 and the
  target 200, whatever the rest of the store, \<^verbatim>\<open>pruneDatabase\<close> returns
  \<^verbatim>\<open>ErrNotEnoughHistory\<close> from its first guard, since 100 is less than
  50 + 50 + 1, and leaves the store as it is. The clamp is not reached.
\<close>

theorem short_history_is_NotEnoughHistory:
  "pruneDatabase fuel (env\<lparr>SolidEntryPointCheckThresholdPast := 50\<rparr>) 200 abort
     (st\<lparr>snapshotInfo := Some \<lparr>SnapshotIndex = 100, EntryPointIndex = 50, PruningIndex = 50\<rparr>\<rparr>)
   = (Some (Inl ErrNotEnoughHistory),
      st\<lparr>snapshotInfo := Some \<lparr>SnapshotIndex = 100, EntryPointIndex = 50, PruningIndex = 50\<rparr>\<rparr>)"
  by (simp add: pruneDatabase_def AdditionalPruningThreshold_def)

text \<open>
  Claim C2 as stated fails: on these values the result is not
  \<^verbatim>\<open>ErrNoPruningNeeded\<close>. The clamp, were it reached, would not lower the target
  either: in unsigned arithmetic 100 - 50 - 50 - 1 wraps around to the largest index.
\<close>

theorem short_history_not_NoPruningNeeded:
  "fst (pruneDatabase 5 exPruneEnv 200 (\<lambda>k. False) (exStore\<lparr>snapshotInfo := Some exShortInfo\<rparr>))
     = Some (Inl ErrNotEnoughHistory)
   \<and> fst (pruneDatabase 5 exPruneEnv 200 (\<lambda>k. False) (exStore\<lparr>snapshotInfo := Some exShortInfo\<rparr>))
     \<noteq> Some (Inl ErrNoPruningNeeded)
   \<and> clampTarget exPruneEnv exShortInfo 200 = 200"
  by (simp add: pruneDatabase_def AdditionalPruningThreshold_def exShortInfo_def exPruneEnv_def
        clampTarget_def)

text \<open>The same on the example store, for a set of an absent and a present message.\<close>

theorem pruneMessages_idempotent_witness:
  "messages exStore ''zz'' = None \<and> pruneMessage ''zz'' exStore = exStore
   \<and> set [''zz'', ''a''] \<subseteq> set [''a'', ''zz'']
   \<and> pruneMessages [''zz'', ''a''] (snd (pruneMessages [''a'', ''zz''] exStore))
       = (2, snd (pruneMessages [''a'', ''zz''] exStore))
   \<and> messages (snd (pruneMessages [''a'', ''zz''] exStore)) ''a'' = None"
proof -
  have h: "messages exStore ''zz'' = None" by (simp add: exStore_def)
  have s: "set [''zz'', ''a''] \<subseteq> set [''a'', ''zz'']" by simp
  have m: "messages (snd (pruneMessages [''a'', ''zz''] exStore)) ''a'' = None"
    by (simp add: pruneMessages_def pruneMessage_def exStore_def DeleteMessage_def
          DeleteChildren_def DeleteChild_def logOp_def)
  from pruneMessages_idempotent [of exStore "''zz''" "[''zz'', ''a'']" "[''a'', ''zz'']"] h s m
  show ?thesis by simp
qed




text \<open>
  Claim C6, amended. When the record of milestone \<open>m\<close> is absent, the iteration of the
  loop for \<open>m\<close> prunes the unconfirmed messages of \<open>m\<close> and nothing else: the local
  snapshot info is returned as it was, the persisted one is unchanged, none of the calls
  made persists a snapshot info or reports a pruned milestone, and the loop goes on with
  \<open>m + 1\<close>. So this iteration does not set \<^verbatim>\<open>PruningIndex\<close> to \<open>m\<close>.
\<close>

theorem missing_milestone_iteration_skipped:
  assumes "milestones st m = None"
  shows "pruneIteration env m si st = (si, snd (pruneUnconfirmedTransactions env m st))
       \<and> snapshotInfo (snd (pruneIteration env m si st)) = snapshotInfo st
       \<and> list_all quietOp (drop (length (oplog st)) (oplog (snd (pruneIteration env m si st))))
       \<and> (m \<le> t \<and> \<not> abort 0 \<longrightarrow>
            pruneLoop (Suc fuel) env abort m t si st =
              pruneLoop fuel env (\<lambda>k. abort (Suc k)) (m + 1) t si
                (snd (pruneUnconfirmedTransactions env m st)))"
proof -
  have it: "pruneIteration env m si st = (si, snd (pruneUnconfirmedTransactions env m st))"
    using assms by (simp add: pruneIteration_unfold milestones_pruneUnconfirmedTransactions)
  from quietStep_pruneUnconfirmedTransactions [of st env m]
  obtain new where "oplog (snd (pruneUnconfirmedTransactions env m st)) = oplog st @ new"
    "list_all quietOp new"
    "snapshotInfo (snd (pruneUnconfirmedTransactions env m st)) = snapshotInfo st"
    unfolding quietStep_def by blast
  then show ?thesis using it by simp
qed

lemma pruneDatabase_NoPruningNeeded:
  assumes "snapshotInfo st = Some si"
    and "\<not> SnapshotIndex si < SolidEntryPointCheckThresholdPast env + AdditionalPruningThreshold + 1"
    and "clampTarget env si targetIndex \<le> PruningIndex si"
  shows "pruneDatabase fuel env targetIndex abort st = (Some (Inl ErrNoPruningNeeded), st)"
  using assms unfolding pruneDatabase_def Let_def by (simp del: not_less)

lemma fst_pruneIteration_present:
  assumes "milestones st m = Some ms"
    and "TraverseParents env (snd (pruneUnconfirmedTransactions env m st)) (MessageID ms) = Inr c"
  shows "fst (pruneIteration env m si st) = si\<lparr>PruningIndex := m\<rparr>"
  using assms by (simp add: pruneIteration_unfold milestones_pruneUnconfirmedTransactions)

lemma milestones_pruneMilestone:
  "milestones (pruneMilestone env m st) = (milestones st)(m := None)"
  by (simp add: pruneMilestone_def DeleteLedgerDiffForMilestone_def DeleteMilestone_def logOp_def
        split: option.splits)

lemma milestones_pruneIteration:
  "m' \<noteq> m \<Longrightarrow> milestones (snd (pruneIteration env m si st)) m' = milestones st m'"
  by (simp add: pruneIteration_unfold milestones_pruneUnconfirmedTransactions Let_def
        milestones_pruneMilestone milestones_pruneMessagesLoop SetSnapshotInfo_def
        PruningMilestoneIndexChangedTrigger_def logOp_def
        split: option.splits sum.splits)

lemma milestones_foldl_SolidEntryPointsAdd:
  "milestones (foldl (\<lambda>s (h, i). SolidEntryPointsAdd h i s) st seps) = milestones st"
  by (induction seps arbitrary: st) (auto simp: SolidEntryPointsAdd_def logOp_def)

lemma milestones_beforeLoop:
  "milestones (snd (beforeLoop env t seps si st)) = milestones st"
  by (simp add: beforeLoop_def Let_def milestones_pruneUnconfirmedTransactions
        SetSnapshotInfo_def StoreSolidEntryPoints_def ResetSolidEntryPoints_def logOp_def
        milestones_foldl_SolidEntryPointsAdd)

lemma tracked_snapshotInfo: "tracked si st si' st' \<Longrightarrow> snapshotInfo st' = Some si'"
  by (auto simp: tracked_def)

text \<open>
  Claim C6 as stated fails. Milestone 801 is in the pruning range and its record is
  absent; the run with target 802 skips it, prunes 802 and so sets
  \<^verbatim>\<open>PruningIndex\<close> to 802, beyond 801. A second run with the same target returns
  \<^verbatim>\<open>ErrNoPruningNeeded\<close> and leaves the store as it is: 801 is not retried.
\<close>

theorem skipped_milestone_is_not_retried:
  "milestones exStore 801 = None
   \<and> PruningIndex exInfo < 801 \<and> (801::Index) \<le> 802
   \<and> fst (pruneDatabase 5 exPruneEnv 802 (\<lambda>k. False) exStore) = Some (Inr ())
   \<and> snapshotInfo (snd (pruneDatabase 5 exPruneEnv 802 (\<lambda>k. False) exStore))
       = Some \<lparr>SnapshotIndex = 1000, EntryPointIndex = 802, PruningIndex = 802\<rparr>
   \<and> pruneDatabase 5 exPruneEnv 802 (\<lambda>k. False)
         (snd (pruneDatabase 5 exPruneEnv 802 (\<lambda>k. False) exStore))
       = (Some (Inl ErrNoPruningNeeded), snd (pruneDatabase 5 exPruneEnv 802 (\<lambda>k. False) exStore))"
proof -
  let ?env = exPruneEnv
  let ?ab = "\<lambda>k::nat. False"
  let ?st0 = "setIsPruning True exStore"
  let ?si1 = "exInfo\<lparr>EntryPointIndex := 802\<rparr>"
  have m801: "milestones exStore 801 = None" by (simp add: exStore_def)
  have m802: "milestones exStore 802 = Some \<lparr>MessageID = ''m2''\<rparr>" by (simp add: exStore_def)
  have h1: "snapshotInfo exStore = Some exInfo" by (simp add: exStore_def)
  have h2: "\<not> SnapshotIndex exInfo
              < SolidEntryPointCheckThresholdPast ?env + AdditionalPruningThreshold + 1"
    by (simp add: exInfo_def exPruneEnv_def AdditionalPruningThreshold_def)
  have h3: "802 = clampTarget ?env exInfo 802"
    by (simp add: clampTarget_def exInfo_def exPruneEnv_def AdditionalPruningThreshold_def)
  have h4: "PruningIndex exInfo < 802" by (simp add: exInfo_def)
  have h5: "EntryPointIndex exInfo + AdditionalPruningThreshold + 1 \<le> 802"
    by (simp add: exInfo_def AdditionalPruningThreshold_def)
  have sep: "getSolidEntryPoints ?env ?st0 802 = Inr [(''e'', 802)]"
    by (simp add: exPruneEnv_def)
  obtain st3 where bl: "beforeLoop ?env 802 [(''e'', 802)] exInfo ?st0 = (?si1, st3)"
    using beforeLoop_log [of ?env 802 "[(''e'', 802)]" exInfo ?st0]
    by (cases "beforeLoop ?env 802 [(''e'', 802)] exInfo ?st0") auto
  from beforeLoop_log [of ?env 802 "[(''e'', 802)]" exInfo ?st0] bl
  have s3: "snapshotInfo st3 = Some ?si1" by simp
  from milestones_beforeLoop [of ?env 802 "[(''e'', 802)]" exInfo ?st0] bl
  have ms3: "milestones st3 = milestones exStore" by (simp add: setIsPruning_def logOp_def)
  \<comment> \<open>milestone 801: its record is absent, the iteration is skipped\<close>
  let ?st4 = "snd (pruneUnconfirmedTransactions ?env 801 st3)"
  have it1: "pruneIteration ?env 801 ?si1 st3 = (?si1, ?st4)"
    using ms3 m801 by (simp add: pruneIteration_unfold milestones_pruneUnconfirmedTransactions)
  have ms4: "milestones ?st4 = milestones exStore"
    using ms3 by (simp add: milestones_pruneUnconfirmedTransactions)
  from tracked_snapshotInfo [OF tracked_pruneIteration [OF s3, of ?env 801]] it1
  have s4: "snapshotInfo ?st4 = Some ?si1" by simp
  \<comment> \<open>milestone 802: it is pruned, which sets the pruning index beyond 801\<close>
  obtain si5 st5 where it2: "pruneIteration ?env 802 ?si1 ?st4 = (si5, st5)"
    by (cases "pruneIteration ?env 802 ?si1 ?st4")
  have tp: "TraverseParents ?env x h = Inr [h]" for x h by (simp add: exPruneEnv_def)
  have m4: "milestones ?st4 802 = Some \<lparr>MessageID = ''m2''\<rparr>" using ms4 m802 by simp
  have "fst (pruneIteration ?env 802 ?si1 ?st4) = ?si1\<lparr>PruningIndex := 802\<rparr>"
    by (rule fst_pruneIteration_present [OF m4 tp])
  with it2 have si5: "si5 = ?si1\<lparr>PruningIndex := 802\<rparr>" by simp
  from tracked_snapshotInfo [OF tracked_pruneIteration [OF s4, of ?env 802]] it2
  have s5: "snapshotInfo st5 = Some si5" by simp
  have f: "(5::nat) = Suc (Suc (Suc (Suc (Suc 0))))" by simp
  have loop: "pruneLoop 5 ?env ?ab (PruningIndex ?si1 + 1) 802 ?si1 st3 = (Some (Inr ()), si5, st5)"
    unfolding f using it1 it2 by (simp add: exInfo_def)
  have run: "pruneDatabase 5 ?env 802 ?ab exStore =
               (Some (Inr ()), setIsPruning False (RunGarbageCollection st5))"
    unfolding pruneDatabase_guards_passed [OF h1 h2 h3 h4 h5]
    using sep bl loop by (simp add: pruneGuarded_def)
  have fin: "snapshotInfo (setIsPruning False (RunGarbageCollection st5)) =
               Some \<lparr>SnapshotIndex = 1000, EntryPointIndex = 802, PruningIndex = 802\<rparr>"
    using s5 si5 by (simp add: setIsPruning_def RunGarbageCollection_def logOp_def exInfo_def)
  have again: "pruneDatabase 5 ?env 802 ?ab (setIsPruning False (RunGarbageCollection st5)) =
                 (Some (Inl ErrNoPruningNeeded), setIsPruning False (RunGarbageCollection st5))"
    by (rule pruneDatabase_NoPruningNeeded [OF fin])
       (simp_all add: exPruneEnv_def AdditionalPruningThreshold_def clampTarget_def)
  show ?thesis
    unfolding run using m801 fin again by (simp add: exInfo_def)
qed

text \<open>Claim C3 on the example store, for the target 803.\<close>

theorem entry_points_persisted_before_deletion_witness:
  "snapshotInfo exStore = Some exInfo
   \<and> \<not> SnapshotIndex exInfo
        < SolidEntryPointCheckThresholdPast exPruneEnv + AdditionalPruningThreshold + 1
   \<and> 803 = clampTarget exPruneEnv exInfo 803
   \<and> PruningIndex exInfo < 803
   \<and> EntryPointIndex exInfo + AdditionalPruningThreshold + 1 \<le> 803
   \<and> (\<exists>post.
         oplog (snd (pruneDatabase 5 exPruneEnv 803 (\<lambda>k. False) exStore)) =
           [OpSetIsPruning True, OpResetSolidEntryPoints, OpSolidEntryPointsAdd ''e'' 803,
            OpStoreSolidEntryPoints, OpSetSnapshotInfo (exInfo\<lparr>EntryPointIndex := 803\<rparr>)]
           @ post
       \<and> list_all (keepsEntryPointIndex 803) post)"
proof -
  have h1: "snapshotInfo exStore = Some exInfo" by (simp add: exStore_def)
  have h2: "\<not> SnapshotIndex exInfo
              < SolidEntryPointCheckThresholdPast exPruneEnv + AdditionalPruningThreshold + 1"
    by (simp add: exInfo_def exPruneEnv_def AdditionalPruningThreshold_def)
  have h3: "803 = clampTarget exPruneEnv exInfo 803"
    by (simp add: clampTarget_def exInfo_def exPruneEnv_def AdditionalPruningThreshold_def)
  have h4: "PruningIndex exInfo < 803" by (simp add: exInfo_def)
  have h5: "EntryPointIndex exInfo + AdditionalPruningThreshold + 1 \<le> 803"
    by (simp add: exInfo_def AdditionalPruningThreshold_def)
  have sep: "getSolidEntryPoints exPruneEnv (setIsPruning True exStore) 803 = Inr [(''e'', 803)]"
    by (simp add: exPruneEnv_def)
  have l0: "oplog exStore = []" by (simp add: exStore_def)
  from entry_points_persisted_before_deletion [OF h1 h2 h3 h4 h5, of 5 "\<lambda>k. False"]
  have "\<exists>post.
         oplog (snd (pruneDatabase 5 exPruneEnv 803 (\<lambda>k. False) exStore)) =
           [OpSetIsPruning True, OpResetSolidEntryPoints, OpSolidEntryPointsAdd ''e'' 803,
            OpStoreSolidEntryPoints, OpSetSnapshotInfo (exInfo\<lparr>EntryPointIndex := 803\<rparr>)]
           @ post
       \<and> list_all (keepsEntryPointIndex 803) post"
    unfolding sep l0 by auto
  with h1 h2 h3 h4 h5 show ?thesis by blast
qed


text \<open>Claim C6, amended, on the example store: milestone 801.\<close>

theorem missing_milestone_iteration_skipped_witness:
  "milestones exStore 801 = None
   \<and> pruneIteration exPruneEnv 801 exInfo exStore
       = (exInfo, snd (pruneUnconfirmedTransactions exPruneEnv 801 exStore))
   \<and> snapshotInfo (snd (pruneIteration exPruneEnv 801 exInfo exStore)) = Some exInfo"
proof -
  have h: "milestones exStore 801 = None" by (simp add: exStore_def)
  have s: "snapshotInfo exStore = Some exInfo" by (simp add: exStore_def)
  note t = missing_milestone_iteration_skipped [OF h, of exPruneEnv exInfo]
  from t [THEN conjunct1]
  have c1: "pruneIteration exPruneEnv 801 exInfo exStore
              = (exInfo, snd (pruneUnconfirmedTransactions exPruneEnv 801 exStore))" .
  from t [THEN conjunct2, THEN conjunct1]
  have c2: "snapshotInfo (snd (pruneIteration exPruneEnv 801 exInfo exStore))
              = snapshotInfo exStore" .
  from h c1 c2 [unfolded s] show ?thesis by blast
qed

end
